theory Spec2Isabelle
  imports Complex_Main
begin

section \<open>Orientation algebra of \<^verbatim>\<open>hexrd/rotations.py\<close>\<close>

text \<open>
  The module works on numpy arrays of double precision numbers. The embedding keeps the
  control flow, the index arithmetic of the reshapes and every raise of the source, and
  computes with exact real numbers: rounding is not part of the model, and a statement
  below that speaks of equality of numbers is a statement about exact arithmetic.

  A quaternion batch (a \<open>4 \<times> n\<close> array) is the list of its \<open>n\<close> columns, a vector
  batch (\<open>3 \<times> n\<close>) likewise; the leading dimension is fixed by the type, so the shape
  errors the source raises for other leading dimensions have no counterpart here.
\<close>

subsection \<open>Data\<close>

datatype error =
  RuntimeError | ValueError | KeyError | IndexError | UnboundLocalError
  | NotImplementedError

datatype quat = Quat (c0: real) (c1: real) (c2: real) (c3: real)

datatype vec3 = Vec3 (x1: real) (x2: real) (x3: real)

text \<open>A \<open>4 \<times> 4\<close> array, as its four rows.\<close>

datatype mat4 = Mat4 (row0: quat) (row1: quat) (row2: quat) (row3: quat)

definition scaleq :: "real \<Rightarrow> quat \<Rightarrow> quat" where
  "scaleq a q = Quat (a * c0 q) (a * c1 q) (a * c2 q) (a * c3 q)"

definition dotq :: "quat \<Rightarrow> quat \<Rightarrow> real" where
  "dotq r v = c0 r * c0 v + c1 r * c1 v + c2 r * c2 v + c3 r * c3 v"

text \<open>\<^verbatim>\<open>dot(M, v)\<close> for one \<open>4 \<times> 4\<close> matrix and one column.\<close>

definition matvec :: "mat4 \<Rightarrow> quat \<Rightarrow> quat" where
  "matvec M v = Quat (dotq (row0 M) v) (dotq (row1 M) v) (dotq (row2 M) v) (dotq (row3 M) v)"

subsection \<open>\<^verbatim>\<open>quatProductMatrix\<close>\<close>

text \<open>
  The source stacks sixteen rows, one per matrix entry, and reshuffles them with
  \<^verbatim>\<open>qmats.T.reshape(nq, 4, 4).transpose(0, 2, 1)\<close>: after the reshape entry \<open>(i, j)\<close> of
  a matrix is stacked row \<open>4 i + j\<close>, after the transpose it is stacked row \<open>4 j + i\<close>.
\<close>

definition reshuffle :: "real list \<Rightarrow> mat4" where
  "reshuffle e =
     Mat4 (Quat (e ! 0) (e ! 4) (e ! 8) (e ! 12))
          (Quat (e ! 1) (e ! 5) (e ! 9) (e ! 13))
          (Quat (e ! 2) (e ! 6) (e ! 10) (e ! 14))
          (Quat (e ! 3) (e ! 7) (e ! 11) (e ! 15))"

definition stack_right :: "quat \<Rightarrow> real list" where
  "stack_right q =
     [c0 q, c1 q, c2 q, c3 q,
      - c1 q, c0 q, - c3 q, c2 q,
      - c2 q, c3 q, c0 q, - c1 q,
      - c3 q, - c2 q, c1 q, c0 q]"

definition stack_left :: "quat \<Rightarrow> real list" where
  "stack_left q =
     [c0 q, c1 q, c2 q, c3 q,
      - c1 q, c0 q, c3 q, - c2 q,
      - c2 q, - c3 q, c0 q, c1 q,
      - c3 q, c2 q, - c1 q, c0 q]"

text \<open>
  With \<^verbatim>\<open>mult\<close> neither \<^verbatim>\<open>'right'\<close> nor \<^verbatim>\<open>'left'\<close> the local \<^verbatim>\<open>qmats\<close> is never bound and
  the reshuffling line raises.
\<close>

definition quatProductMatrix :: "quat list \<Rightarrow> string \<Rightarrow> error + mat4 list" where
  "quatProductMatrix quats mult =
     (if mult = ''right'' then Inr (map (\<lambda>q. reshuffle (stack_right q)) quats)
      else if mult = ''left'' then Inr (map (\<lambda>q. reshuffle (stack_left q)) quats)
      else Inl UnboundLocalError)"

text \<open>
  The Hamilton product, with \<open>i\<^sup>2 = j\<^sup>2 = k\<^sup>2 = i j k = -1\<close>; this is the product the
  docstring of \<^verbatim>\<open>quatProductMatrix\<close> writes \<^verbatim>\<open>q * h\<close>.
\<close>

definition hamilton :: "quat \<Rightarrow> quat \<Rightarrow> quat" where
  "hamilton p q =
     Quat (c0 p * c0 q - c1 p * c1 q - c2 p * c2 q - c3 p * c3 q)
          (c0 p * c1 q + c1 p * c0 q + c2 p * c3 q - c3 p * c2 q)
          (c0 p * c2 q - c1 p * c3 q + c2 p * c0 q + c3 p * c1 q)
          (c0 p * c3 q + c1 p * c2 q - c2 p * c1 q + c3 p * c0 q)"

subsection \<open>Normalisation and sign fixing\<close>

text \<open>
  Modelled from the spec: \<^verbatim>\<open>columnNorm\<close> of \<^verbatim>\<open>hexrd.matrixutil\<close> is not among the
  sources. It is the norm of each column, the Euclidean length the specification measures
  quaternions and vectors with; here for a column of four and of three components.
\<close>

definition columnNorm :: "quat \<Rightarrow> real" where
  "columnNorm v = sqrt ((c0 v)\<^sup>2 + (c1 v)\<^sup>2 + (c2 v)\<^sup>2 + (c3 v)\<^sup>2)"

definition columnNorm3 :: "vec3 \<Rightarrow> real" where
  "columnNorm3 v = sqrt ((x1 v)\<^sup>2 + (x2 v)\<^sup>2 + (x3 v)\<^sup>2)"

text \<open>
  Modelled from the spec: \<^verbatim>\<open>unitVector\<close> of \<^verbatim>\<open>hexrd.matrixutil\<close> is not among the
  sources. The specification says of it that it normalises each column to unit length:
  every component is divided by the Euclidean norm of its column. (For a zero column the
  quotient \<open>0 / 0\<close> is \<open>0\<close> here; the specification is silent on that column.)
\<close>

definition unitVector1 :: "quat \<Rightarrow> quat" where
  "unitVector1 v = scaleq (1 / columnNorm v) v"

definition unitVector :: "quat list \<Rightarrow> quat list" where
  "unitVector a = map unitVector1 a"

definition scale3 :: "real \<Rightarrow> vec3 \<Rightarrow> vec3" where
  "scale3 a v = Vec3 (a * x1 v) (a * x2 v) (a * x3 v)"

definition div3 :: "vec3 \<Rightarrow> real \<Rightarrow> vec3" where
  "div3 v a = Vec3 (x1 v / a) (x2 v / a) (x3 v / a)"

definition add3 :: "vec3 \<Rightarrow> vec3 \<Rightarrow> vec3" where
  "add3 u v = Vec3 (x1 u + x1 v) (x2 u + x2 v) (x3 u + x3 v)"

text \<open>Modelled from the spec: the same \<^verbatim>\<open>unitVector\<close>, on columns of three components.\<close>

definition unitVector3 :: "vec3 list \<Rightarrow> vec3 list" where
  "unitVector3 a = map (\<lambda>v. div3 v (columnNorm3 v)) a"

text \<open>
  A quaternion array is two-dimensional (\<open>4 \<times> n\<close>) or three-dimensional
  (\<open>l \<times> 4 \<times> n\<close>, a list of \<open>l\<close> blocks of \<open>n\<close> columns each).
  \<^verbatim>\<open>q.transpose(0, 2, 1).reshape(l * n, 4).T\<close> lays the blocks side by side, column \<open>b\<close> of
  block \<open>a\<close> at index \<open>a n + b\<close>; \<^verbatim>\<open>qfix.T.reshape(l, n, 4).transpose(0, 2, 1)\<close> cuts the
  columns back into \<open>l\<close> blocks of \<open>n\<close>.
\<close>

datatype qarray = Arr2 "quat list" | Arr3 nat "quat list list"

definition unflatten :: "nat \<Rightarrow> nat \<Rightarrow> 'a list \<Rightarrow> 'a list list" where
  "unflatten l n xs = map (\<lambda>a. take n (drop (a * n) xs)) [0..<l]"

definition fixQuat2 :: "quat list \<Rightarrow> quat list" where
  "fixQuat2 q =
     (let qfix = unitVector q;
          q0negative = map (\<lambda>v. c0 v < 0) qfix
      in map2 (\<lambda>neg v. if neg then scaleq (- 1) v else v) q0negative qfix)"

fun fixQuat :: "qarray \<Rightarrow> qarray" where
  "fixQuat (Arr2 q) = Arr2 (fixQuat2 q)"
| "fixQuat (Arr3 n bs) = Arr3 n (unflatten (length bs) n (fixQuat2 (concat bs)))"

definition invertQuat :: "quat list \<Rightarrow> quat list" where
  "invertQuat q =
     (let numq = length q;
          imat = replicate numq (Quat (- 1) 1 1 1);
          qinv = map2 (\<lambda>i v. Quat (c0 i * c0 v) (c1 i * c1 v) (c2 i * c2 v) (c3 i * c3 v)) imat q
      in fixQuat2 qinv)"

subsection \<open>\<^verbatim>\<open>arccosSafe\<close>\<close>

text \<open>
  \<^verbatim>\<open>atleast_1d\<close> makes the argument an array, here the list of its entries. Both masks
  are taken before either assignment.
\<close>

definition arccosSafe :: "real list \<Rightarrow> error + real list" where
  "arccosSafe temp =
     (if \<exists>x \<in> set temp. \<bar>x\<bar> > 1.00001 then Inl RuntimeError
      else
        let gte1 = map (\<lambda>x. x \<ge> 1) temp;
            lte1 = map (\<lambda>x. x \<le> - 1) temp;
            temp1 = map2 (\<lambda>b x. if b then 1 else x) gte1 temp;
            temp2 = map2 (\<lambda>b x. if b then - 1 else x) lte1 temp1
        in Inr (map arccos temp2))"

subsection \<open>Reductions over an axis\<close>

fun amax :: "real list \<Rightarrow> real" where
  "amax [] = 0"
| "amax [x] = x"
| "amax (x # y # ys) = max x (amax (y # ys))"

fun first_index :: "real \<Rightarrow> real list \<Rightarrow> nat" where
  "first_index v [] = 0"
| "first_index v (x # xs) = (if x = v then 0 else Suc (first_index v xs))"

text \<open>numpy's \<^verbatim>\<open>argmax\<close>: the first index at which the maximum stands.\<close>

definition argmax :: "real list \<Rightarrow> nat" where
  "argmax xs = first_index (amax xs) xs"

subsection \<open>Construction from angle and axis\<close>

text \<open>
  A scipy quaternion is scalar-last, \<open>(x, y, z, w)\<close>. scipy is not part of the
  repository: \<^verbatim>\<open>R.from_rotvec(v).as_quat()\<close> for one rotation vector is the parameter
  \<open>from_rotvec\<close> of the functions below.
\<close>

type_synonym scipy_quat = "real \<times> real \<times> real \<times> real"

definition roll1 :: "scipy_quat \<Rightarrow> quat" where
  "roll1 r = (case r of (x, y, z, w) \<Rightarrow> Quat w x y z)"

definition scipy_rotation_to_quat :: "scipy_quat list \<Rightarrow> quat list" where
  "scipy_rotation_to_quat r =
     (let quat = map roll1 r in map (\<lambda>v. scaleq (sgn (c0 v)) v) quat)"

text \<open>
  \<^verbatim>\<open>angle\<close> is the list or array of \<open>n\<close> angles (a single number is \<open>n = 1\<close>);
  \<^verbatim>\<open>rotaxis\<close> has one column or \<open>n\<close>.
\<close>

definition quatOfAngleAxis ::
  "(vec3 \<Rightarrow> scipy_quat) \<Rightarrow> real list \<Rightarrow> vec3 list \<Rightarrow> error + quat list" where
  "quatOfAngleAxis from_rotvec angle rotaxis =
     (let n = length angle in
      case (if length rotaxis = 1 then Inr (replicate n (hd rotaxis))
            else if length rotaxis \<noteq> n then Inl RuntimeError
            else Inr rotaxis) of
        Inl e \<Rightarrow> Inl e
      | Inr tiled \<Rightarrow>
          let unit = unitVector3 tiled;
              rot = map from_rotvec (map2 scale3 angle unit)
          in Inr (scipy_rotation_to_quat rot))"

subsection \<open>Symmetry tables\<close>

definition piby2 :: real where "piby2 = pi / 2"

definition piby3 :: real where "piby3 = pi / 3"

definition sq3by2 :: real where "sq3by2 = sqrt 3 / 2"

text \<open>\<^verbatim>\<open>str.lower\<close>, on the letters the tags are written with.\<close>

definition lower_char :: "char \<Rightarrow> char" where
  "lower_char c =
     (if c = CHR ''A'' then CHR ''a''
      else if c = CHR ''B'' then CHR ''b''
      else if c = CHR ''C'' then CHR ''c''
      else if c = CHR ''D'' then CHR ''d''
      else if c = CHR ''E'' then CHR ''e''
      else if c = CHR ''F'' then CHR ''f''
      else if c = CHR ''G'' then CHR ''g''
      else if c = CHR ''H'' then CHR ''h''
      else if c = CHR ''I'' then CHR ''i''
      else if c = CHR ''J'' then CHR ''j''
      else if c = CHR ''K'' then CHR ''k''
      else if c = CHR ''L'' then CHR ''l''
      else if c = CHR ''M'' then CHR ''m''
      else if c = CHR ''N'' then CHR ''n''
      else if c = CHR ''O'' then CHR ''o''
      else if c = CHR ''P'' then CHR ''p''
      else if c = CHR ''Q'' then CHR ''q''
      else if c = CHR ''R'' then CHR ''r''
      else if c = CHR ''S'' then CHR ''s''
      else if c = CHR ''T'' then CHR ''t''
      else if c = CHR ''U'' then CHR ''u''
      else if c = CHR ''V'' then CHR ''v''
      else if c = CHR ''W'' then CHR ''w''
      else if c = CHR ''X'' then CHR ''x''
      else if c = CHR ''Y'' then CHR ''y''
      else if c = CHR ''Z'' then CHR ''z''
      else c)"

definition lower :: "string \<Rightarrow> string" where
  "lower s = map lower_char s"

text \<open>
  The \<^verbatim>\<open>if\<close> chain of \<^verbatim>\<open>quatOfLaueGroup\<close> that selects \<^verbatim>\<open>angleAxis\<close>, one pair of angle
  and axis per column; \<open>None\<close> is the final \<^verbatim>\<open>else\<close>.
\<close>

definition angleAxis_of_tag :: "string \<Rightarrow> (real \<times> vec3) list option" where
  "angleAxis_of_tag tag =
     (let t = lower tag in
     (if t = ''ci'' \<or> t = ''s2'' then Some
          [(0, Vec3 1 0 0)]
      else if t = ''c2h'' then Some
          [(0, Vec3 1 0 0), (pi, Vec3 0 1 0)]
      else if t = ''d2h'' \<or> t = ''vh'' then Some
          [(0, Vec3 1 0 0), (pi, Vec3 1 0 0), (pi, Vec3 0 1 0),
           (pi, Vec3 0 0 1)]
      else if t = ''c4h'' then Some
          [(0, Vec3 1 0 0), (piby2, Vec3 0 0 1), (pi, Vec3 0 0 1),
           (piby2 * 3, Vec3 0 0 1)]
      else if t = ''d4h'' then Some
          [(0, Vec3 1 0 0), (piby2, Vec3 0 0 1), (pi, Vec3 0 0 1),
           (piby2 * 3, Vec3 0 0 1), (pi, Vec3 1 0 0), (pi, Vec3 0 1 0),
           (pi, Vec3 1 1 0), (pi, Vec3 (- 1) 1 0)]
      else if t = ''c3i'' \<or> t = ''s6'' then Some
          [(0, Vec3 1 0 0), (piby3 * 2, Vec3 0 0 1),
           (piby3 * 4, Vec3 0 0 1)]
      else if t = ''d3d'' then Some
          [(0, Vec3 1 0 0), (piby3 * 2, Vec3 0 0 1),
           (piby3 * 4, Vec3 0 0 1), (pi, Vec3 1 0 0),
           (pi, Vec3 (- 0.5) sq3by2 0), (pi, Vec3 (- 0.5) (- sq3by2) 0)]
      else if t = ''c6h'' then Some
          [(0, Vec3 1 0 0), (piby3, Vec3 0 0 1), (piby3 * 2, Vec3 0 0 1),
           (pi, Vec3 0 0 1), (piby3 * 4, Vec3 0 0 1),
           (piby3 * 5, Vec3 0 0 1)]
      else if t = ''d6h'' then Some
          [(0, Vec3 1 0 0), (piby3, Vec3 0 0 1), (piby3 * 2, Vec3 0 0 1),
           (pi, Vec3 0 0 1), (piby3 * 4, Vec3 0 0 1),
           (piby3 * 5, Vec3 0 0 1), (pi, Vec3 1 0 0),
           (pi, Vec3 (- 0.5) sq3by2 0), (pi, Vec3 (- 0.5) (- sq3by2) 0),
           (pi, Vec3 sq3by2 0.5 0), (pi, Vec3 0 1 0),
           (pi, Vec3 (- sq3by2) 0.5 0)]
      else if t = ''th'' then Some
          [(0, Vec3 1 0 0), (pi, Vec3 1 0 0), (pi, Vec3 0 1 0),
           (pi, Vec3 0 0 1), (piby3 * 2, Vec3 1 1 1),
           (piby3 * 4, Vec3 1 1 1), (piby3 * 2, Vec3 (- 1) 1 1),
           (piby3 * 4, Vec3 (- 1) 1 1), (piby3 * 2, Vec3 (- 1) (- 1) 1),
           (piby3 * 4, Vec3 (- 1) (- 1) 1), (piby3 * 2, Vec3 1 (- 1) 1),
           (piby3 * 4, Vec3 1 (- 1) 1)]
      else if t = ''oh'' then Some
          [(0, Vec3 1 0 0), (piby2, Vec3 1 0 0), (pi, Vec3 1 0 0),
           (piby2 * 3, Vec3 1 0 0), (piby2, Vec3 0 1 0),
           (pi, Vec3 0 1 0), (piby2 * 3, Vec3 0 1 0),
           (piby2, Vec3 0 0 1), (pi, Vec3 0 0 1),
           (piby2 * 3, Vec3 0 0 1), (piby3 * 2, Vec3 1 1 1),
           (piby3 * 4, Vec3 1 1 1), (piby3 * 2, Vec3 (- 1) 1 1),
           (piby3 * 4, Vec3 (- 1) 1 1), (piby3 * 2, Vec3 (- 1) (- 1) 1),
           (piby3 * 4, Vec3 (- 1) (- 1) 1), (piby3 * 2, Vec3 1 (- 1) 1),
           (piby3 * 4, Vec3 1 (- 1) 1), (pi, Vec3 1 1 0),
           (pi, Vec3 (- 1) 1 0), (pi, Vec3 1 0 1), (pi, Vec3 0 1 1),
           (pi, Vec3 (- 1) 0 1), (pi, Vec3 0 (- 1) 1)]
      else None))"

definition quatOfLaueGroup :: "(vec3 \<Rightarrow> scipy_quat) \<Rightarrow> string \<Rightarrow> error + quat list" where
  "quatOfLaueGroup from_rotvec tag =
     (case angleAxis_of_tag tag of
        None \<Rightarrow> Inl RuntimeError
      | Some angleAxis \<Rightarrow>
          let angle = map fst angleAxis;
              axis = map snd angleAxis
          in quatOfAngleAxis from_rotvec angle axis)"

subsection \<open>\<^verbatim>\<open>toFundamentalRegion\<close>\<close>

text \<open>A symmetry argument is a tag or a quaternion batch.\<close>

datatype symmetry = Tag string | Group "quat list"

text \<open>
  \<^verbatim>\<open>dot(qsym, q).transpose(2, 0, 1).reshape(m * n, 4).T\<close>: the product of operator \<open>k\<close>
  with column \<open>j\<close> is column \<open>j m + k\<close> of the result.
\<close>

definition dot_stack :: "mat4 list \<Rightarrow> quat list \<Rightarrow> quat list" where
  "dot_stack qsym q = concat (map (\<lambda>v. map (\<lambda>M. matvec M v) qsym) q)"

definition symmetry_operator ::
  "(vec3 \<Rightarrow> scipy_quat) \<Rightarrow> symmetry \<Rightarrow> string \<Rightarrow> error + mat4 list" where
  "symmetry_operator from_rotvec symm mult =
     (case symm of
        Tag t \<Rightarrow>
          (case quatOfLaueGroup from_rotvec t of
             Inl e \<Rightarrow> Inl e
           | Inr g \<Rightarrow> quatProductMatrix g mult)
      | Group g \<Rightarrow> quatProductMatrix g mult)"

text \<open>
  \<^verbatim>\<open>argmax(q0, 0)\<close> reduces the axis of length \<open>m\<close> and raises on \<open>m = 0\<close>. The
  offsets \<^verbatim>\<open>[x * m for x in range(n)]\<close> are a Python list: for \<open>n = 0\<close> it is empty, its
  sum with the (empty) result of \<^verbatim>\<open>argmax\<close> is an array of floats, and indexing
  \<^verbatim>\<open>qeqv\<close> with it raises. With a sample symmetry the source builds the operator, fixes
  the combined class and raises.
\<close>

definition toFundamentalRegion ::
  "(vec3 \<Rightarrow> scipy_quat) \<Rightarrow> qarray \<Rightarrow> symmetry \<Rightarrow> symmetry option \<Rightarrow> error + qarray" where
  "toFundamentalRegion from_rotvec q crysSym sampSym =
     (let q2 = (case q of Arr2 c \<Rightarrow> c | Arr3 n3 bs \<Rightarrow> concat bs) in
      case symmetry_operator from_rotvec crysSym ''right'' of
        Inl e \<Rightarrow> Inl e
      | Inr qsym_c \<Rightarrow>
          let n = length q2;
              m = length qsym_c;
              qeqv = dot_stack qsym_c q2
          in (case sampSym of
                None \<Rightarrow>
                  let qeqv = fixQuat2 qeqv;
                      q0 = map (\<lambda>j. map (\<lambda>k. c0 (qeqv ! (j * m + k))) [0..<m]) [0..<n]
                  in if m = 0 then Inl ValueError
                     else if n = 0 then Inl IndexError
                     else
                       let q0maxColInd = map2 (+) (map argmax q0) (map (\<lambda>x. x * m) [0..<n]);
                           qr = map (\<lambda>i. qeqv ! i) q0maxColInd
                       in Inr (case q of
                                 Arr2 c \<Rightarrow> Arr2 qr
                               | Arr3 n3 bs \<Rightarrow> Arr3 n3 (unflatten (length bs) n3 qr))
              | Some s \<Rightarrow>
                  (case symmetry_operator from_rotvec s ''left'' of
                     Inl e \<Rightarrow> Inl e
                   | Inr qsym_s \<Rightarrow>
                       let qeqv = fixQuat2 (dot_stack qsym_s qeqv)
                       in Inl NotImplementedError)))"

subsection \<open>\<^verbatim>\<open>misorientation\<close>\<close>

text \<open>
  \<^verbatim>\<open>q1\<close> and \<^verbatim>\<open>q2\<close> are quaternion batches; \<^verbatim>\<open>args\<close> is the tuple of the extra
  positional arguments, each a tuple of symmetry batches. Only \<^verbatim>\<open>args[0]\<close> is read; an
  empty tuple there passes every length test and fails at \<^verbatim>\<open>sym[0]\<close>.

  The scalar components are reshaped to one column per target, column \<open>j\<close> holding the
  entries \<open>j p m, \<dots>, j p m + p m - 1\<close> of the class; \<^verbatim>\<open>max(0)\<close> reduces the axis of
  length \<open>p m\<close> and raises when it is empty. \<^verbatim>\<open>nonzero\<close> lists the positions of the
  maxima row by row, and every position is kept.
\<close>

definition misorientation ::
  "quat list \<Rightarrow> quat list \<Rightarrow> quat list list list \<Rightarrow> error + (real list \<times> quat list)" where
  "misorientation q1 q2 args =
     (if length q1 \<noteq> 1 then Inl RuntimeError
      else
        case (if length args = 0 then Inr [[Quat 1 0 0 0], [Quat 1 0 0 0]]
              else
                let symm = args ! 0 in
                if length symm = 1 then Inr (symm @ [[Quat 1 0 0 0]])
                else if length symm = 2 then Inr symm
                else if length symm > 2 then Inl RuntimeError
                else Inl IndexError) of
          Inl e \<Rightarrow> Inl e
        | Inr symm \<Rightarrow>
            let n = length q2;
                m = length (symm ! 0);
                p = length (symm ! 1)
            in
              (case quatProductMatrix (invertQuat q1) ''right'' of
                 Inl e \<Rightarrow> Inl e
               | Inr q1is \<Rightarrow>
              (case quatProductMatrix (symm ! 0) ''right'' of
                 Inl e \<Rightarrow> Inl e
               | Inr rsym \<Rightarrow>
              (case quatProductMatrix (symm ! 1) ''left'' of
                 Inl e \<Rightarrow> Inl e
               | Inr lsym \<Rightarrow>
                   let q1i = q1is ! 0;
                       q2a = dot_stack rsym q2;
                       q2b = dot_stack lsym q2a;
                       eqvMis = fixQuat2 (map (matvec q1i) q2b);
                       sclEqvMis = map (\<lambda>j. map (\<lambda>r. c0 (eqvMis ! (j * (p * m) + r))) [0..<p * m])
                                     [0..<n]
                   in if p * m = 0 then Inl ValueError
                      else
                        let qmax = map amax sclEqvMis;
                            qmaxInd = concat (map (\<lambda>r. concat (map (\<lambda>j.
                                        if sclEqvMis ! j ! r = qmax ! j then [(r, j)] else [])
                                        [0..<n])) [0..<p * m]);
                            eqvMisColInd = sort (map (\<lambda>(r, j). r + j * p * m) qmaxInd);
                            mis = map (\<lambda>i. eqvMis ! i) eqvMisColInd
                        in (case arccosSafe qmax of
                              Inl e \<Rightarrow> Inl e
                            | Inr ang \<Rightarrow> Inr (map (\<lambda>a. 2 * a) ang, mis))))))"

subsection \<open>The rotation axes of \<^verbatim>\<open>discreteFiber\<close>\<close>

text \<open>
  Python's \<^verbatim>\<open>not\<close> asks an array for its truth value: the single element of an array
  of one element, \<^verbatim>\<open>False\<close> for an empty array, and an error for an array of more.
\<close>

definition py_not :: "bool list \<Rightarrow> error + bool" where
  "py_not a = (case a of [] \<Rightarrow> Inr True | [b] \<Rightarrow> Inr (\<not> b) | _ \<Rightarrow> Inl ValueError)"

text \<open>
  The body of the loop over the crystal directions up to the assignment of \<^verbatim>\<open>ax\<close>, for
  the (unit) crystal direction \<^verbatim>\<open>c[:, i_c]\<close> and the (unit) sample directions \<^verbatim>\<open>s\<close>; an
  exception raised here leaves \<^verbatim>\<open>discreteFiber\<close>. The tolerance \<^verbatim>\<open>cnst.sqrt_epsf\<close> and
  \<^verbatim>\<open>nullSpace\<close> of \<^verbatim>\<open>hexrd.matrixutil\<close> are not among the sources and are parameters;
  \<^verbatim>\<open>columnNorm\<close> is the Euclidean norm of each column. In the last branch a boolean
  that \<^verbatim>\<open>not\<close> returned would index an axis of length one or zero, into which the tile
  of \<^verbatim>\<open>hperp\<close> does not broadcast.
\<close>

definition discreteFiber_ax ::
  "real \<Rightarrow> (vec3 \<Rightarrow> vec3 list) \<Rightarrow> vec3 \<Rightarrow> vec3 list \<Rightarrow> error + vec3 list" where
  "discreteFiber_ax ztol nullSpace c_i s =
     (let npts = length s;
          dupl_c = replicate npts c_i;
          ax = map2 add3 s dupl_c;
          anrm = map columnNorm3 ax;
          okay = map (\<lambda>a. a > ztol) anrm;
          nokay = length (filter (\<lambda>b. b) okay)
      in if nokay = npts then Inr (map2 div3 ax anrm)
         else
           case nullSpace c_i of
             [] \<Rightarrow> Inl IndexError
           | hperp # rest \<Rightarrow>
               if nokay = 0 then Inr (replicate npts hperp)
               else
                 let ax1 = map (\<lambda>(b, v, a). if b then div3 v a else v) (zip okay (zip ax anrm))
                 in (case py_not okay of
                       Inl e \<Rightarrow> Inl e
                     | Inr b \<Rightarrow> Inl ValueError))"

subsection \<open>Angle utilities\<close>

definition periodDict :: "string \<rightharpoonup> real" where
  "periodDict = [''degrees'' \<mapsto> 360, ''radians'' \<mapsto> 2 * pi]"

text \<open>numpy's \<^verbatim>\<open>mod\<close>: the remainder has the sign of the divisor.\<close>

definition np_mod :: "real \<Rightarrow> real \<Rightarrow> real" where
  "np_mod x p = x - p * of_int \<lfloor>x / p\<rfloor>"

text \<open>Both functions work entry by entry; the model is the computation of one entry.\<close>

definition angularDifference_orig :: "real \<Rightarrow> real \<Rightarrow> string \<Rightarrow> error + real" where
  "angularDifference_orig angList0 angList1 units =
     (case (if units = ''radians'' then Inr (2 * pi)
            else if units = ''degrees'' then Inr 360
            else Inl RuntimeError) of
        Inl e \<Rightarrow> Inl e
      | Inr period \<Rightarrow>
          let diffAngles = angList0 - angList1
          in Inr \<bar>np_mod (diffAngles + 0.5 * period) period - 0.5 * period\<bar>)"

definition angularDifference_opt :: "real \<Rightarrow> real \<Rightarrow> string \<Rightarrow> error + real" where
  "angularDifference_opt angList0 angList1 units =
     (case periodDict units of
        None \<Rightarrow> Inl KeyError
      | Some period \<Rightarrow>
          let d = \<bar>angList1 - angList0\<bar>
          in Inr (min d (period - d)))"

definition angularDifference :: "real \<Rightarrow> real \<Rightarrow> string \<Rightarrow> error + real" where
  "angularDifference = angularDifference_opt"

subsection \<open>Notions of the statements\<close>

text \<open>What \<^verbatim>\<open>fixQuat\<close> does to one column.\<close>

definition fixQuat1 :: "quat \<Rightarrow> quat" where
  "fixQuat1 v = (let u = unitVector1 v in if c0 u < 0 then scaleq (- 1) u else u)"

text \<open>The columns of an array in the order of the flattened batch, and its shape.\<close>

definition columns :: "qarray \<Rightarrow> quat list" where
  "columns q = (case q of Arr2 c \<Rightarrow> c | Arr3 n bs \<Rightarrow> concat bs)"

definition shape :: "qarray \<Rightarrow> nat list" where
  "shape q = (case q of Arr2 c \<Rightarrow> [4, length c] | Arr3 n bs \<Rightarrow> [length bs, 4, n])"

text \<open>Every block of a three-dimensional array has the number of columns the array names.\<close>

definition wf_qarray :: "qarray \<Rightarrow> bool" where
  "wf_qarray q = (case q of Arr2 c \<Rightarrow> True | Arr3 n bs \<Rightarrow> list_all (\<lambda>b. length b = n) bs)"

text \<open>The group a symmetry argument stands for.\<close>

definition symmetry_group :: "(vec3 \<Rightarrow> scipy_quat) \<Rightarrow> symmetry \<Rightarrow> error + quat list" where
  "symmetry_group from_rotvec symm =
     (case symm of Tag t \<Rightarrow> quatOfLaueGroup from_rotvec t | Group g \<Rightarrow> Inr g)"

text \<open>
  The crystal-symmetry equivalence class of an orientation \<open>v\<close>: its products \<open>v * s\<close> with
  the operations \<open>s\<close> of the group, each sign-fixed.
\<close>

definition eqv_class :: "quat list \<Rightarrow> quat \<Rightarrow> quat list" where
  "eqv_class g v = map (\<lambda>s. fixQuat1 (hamilton v s)) g"

section \<open>Properties\<close>

subsection \<open>The product matrices\<close>

lemma matvec_right: "matvec (reshuffle (stack_right q)) h = hamilton h q"
  by (simp add: matvec_def reshuffle_def stack_right_def hamilton_def dotq_def algebra_simps)

lemma matvec_left: "matvec (reshuffle (stack_left h)) q = hamilton h q"
  by (simp add: matvec_def reshuffle_def stack_left_def hamilton_def dotq_def algebra_simps)

text \<open>
  C3. For all quaternions \<open>q\<close> and \<open>h\<close>, \<^verbatim>\<open>quatProductMatrix(q, 'right')\<close> applied to \<open>h\<close>
  equals \<^verbatim>\<open>quatProductMatrix(h, 'left')\<close> applied to \<open>q\<close>, and both are the Hamilton
  product \<open>h * q\<close>: the docstring's convention is that \<open>q * h\<close> is
  \<^verbatim>\<open>quatProductMatrix(h, 'right')\<close> applied to \<open>q\<close>.
\<close>

theorem quatProductMatrix_right_left:
  "\<exists>A B. quatProductMatrix [q] ''right'' = Inr [A] \<and> quatProductMatrix [h] ''left'' = Inr [B]
     \<and> matvec A h = matvec B q \<and> matvec A h = hamilton h q \<and> matvec B q = hamilton h q"
  by (simp add: quatProductMatrix_def matvec_right matvec_left)

theorem quatProductMatrix_right_left_witness:
  "\<exists>A B. quatProductMatrix [Quat (3/5) (4/5) 0 0] ''right'' = Inr [A]
     \<and> quatProductMatrix [Quat (3/5) 0 (4/5) 0] ''left'' = Inr [B]
     \<and> matvec A (Quat (3/5) 0 (4/5) 0) = matvec B (Quat (3/5) (4/5) 0 0)
     \<and> matvec A (Quat (3/5) 0 (4/5) 0) = Quat (9/25) (12/25) (12/25) (- (16/25))"
  using quatProductMatrix_right_left [of "Quat (3/5) (4/5) 0 0" "Quat (3/5) 0 (4/5) 0"]
  by (auto simp: hamilton_def)

text \<open>
  The product is not \<open>q * h\<close>, and not its negative either: for the unit quaternions
  \<open>q = (3/5, 4/5, 0, 0)\<close> and \<open>h = (3/5, 0, 4/5, 0)\<close> the last components differ in sign
  while the first agree.
\<close>

theorem quatProductMatrix_not_q_times_h:
  "quatProductMatrix [Quat (3/5) (4/5) 0 0] ''right''
     = Inr [reshuffle (stack_right (Quat (3/5) (4/5) 0 0))]
   \<and> matvec (reshuffle (stack_right (Quat (3/5) (4/5) 0 0))) (Quat (3/5) 0 (4/5) 0)
       = Quat (9/25) (12/25) (12/25) (- (16/25))
   \<and> hamilton (Quat (3/5) (4/5) 0 0) (Quat (3/5) 0 (4/5) 0)
       = Quat (9/25) (12/25) (12/25) (16/25)
   \<and> matvec (reshuffle (stack_right (Quat (3/5) (4/5) 0 0))) (Quat (3/5) 0 (4/5) 0)
       \<noteq> hamilton (Quat (3/5) (4/5) 0 0) (Quat (3/5) 0 (4/5) 0)
   \<and> matvec (reshuffle (stack_right (Quat (3/5) (4/5) 0 0))) (Quat (3/5) 0 (4/5) 0)
       \<noteq> scaleq (- 1) (hamilton (Quat (3/5) (4/5) 0 0) (Quat (3/5) 0 (4/5) 0))"
  by (simp add: quatProductMatrix_def matvec_def reshuffle_def stack_right_def hamilton_def
      dotq_def scaleq_def)

subsection \<open>Angular difference\<close>

lemma dom_periodDict: "dom periodDict = {''degrees'', ''radians''}"
  by (auto simp: periodDict_def split: if_splits)

lemma periodDict_pos: "periodDict units = Some period \<Longrightarrow> 0 < period"
  by (auto simp: periodDict_def split: if_splits)

text \<open>
  C9. For recognised units, \<^verbatim>\<open>angularDifference\<close> of an angle with itself is \<open>0\<close>, the
  function is symmetric in its two angles, and its result is at most half the period.
\<close>

theorem angularDifference_zero_symmetric_bounded:
  assumes "units \<in> dom periodDict"
  shows "angularDifference \<theta> \<theta> units = Inr 0
    \<and> angularDifference a b units = angularDifference b a units
    \<and> (\<exists>r period. angularDifference a b units = Inr r \<and> periodDict units = Some period
          \<and> r \<le> period / 2)"
proof -
  from assms obtain period where p: "periodDict units = Some period" by auto
  then have pos: "0 < period" by (rule periodDict_pos)
  have "angularDifference \<theta> \<theta> units = Inr 0"
    using p pos by (simp add: angularDifference_def angularDifference_opt_def)
  moreover have "angularDifference a b units = angularDifference b a units"
    using p by (simp add: angularDifference_def angularDifference_opt_def abs_minus_commute)
  moreover have "\<exists>r. angularDifference a b units = Inr r \<and> r \<le> period / 2"
    using p by (simp add: angularDifference_def angularDifference_opt_def Let_def min_def)
  ultimately show ?thesis using p by simp
qed

theorem angularDifference_witness:
  "''degrees'' \<in> dom periodDict \<and> angularDifference 30 30 ''degrees'' = Inr 0
    \<and> angularDifference 10 350 ''degrees'' = angularDifference 350 10 ''degrees''
    \<and> angularDifference 10 350 ''degrees'' = Inr 20
    \<and> (\<exists>r. angularDifference 10 350 ''degrees'' = Inr r \<and> r \<le> 180)"
proof -
  have d: "''degrees'' \<in> dom periodDict" by (simp add: dom_periodDict)
  have p: "periodDict ''degrees'' = Some 360" by (simp add: periodDict_def)
  have v: "angularDifference 10 350 ''degrees'' = Inr 20"
    by (simp add: angularDifference_def angularDifference_opt_def p)
  from angularDifference_zero_symmetric_bounded [OF d, of 30 10 350]
  have "angularDifference 30 30 ''degrees'' = Inr 0"
    and "angularDifference 10 350 ''degrees'' = angularDifference 350 10 ''degrees''"
    and "\<exists>r period. angularDifference 10 350 ''degrees'' = Inr r
           \<and> periodDict ''degrees'' = Some period \<and> r \<le> period / 2"
    by blast+
  with d p v show ?thesis by simp
qed

text \<open>
  C10. The optimised \<^verbatim>\<open>angularDifference_opt\<close> does not return what
  \<^verbatim>\<open>angularDifference_orig\<close> returns once the two angles are more than a period apart:
  for \<open>0\<close> and \<open>540\<close> degrees the original gives \<open>180\<close> and the optimised one \<open>-180\<close>.
\<close>

theorem angularDifference_opt_differs_from_orig:
  "angularDifference_orig 0 540 ''degrees'' = Inr 180
   \<and> angularDifference_opt 0 540 ''degrees'' = Inr (- 180)"
  by (simp add: angularDifference_orig_def angularDifference_opt_def periodDict_def np_mod_def)

text \<open>Within one period of each other the two functions agree.\<close>

lemma angularDifference_opt_eq_orig_within_period:
  assumes "periodDict units = Some period" and "\<bar>a0 - a1\<bar> \<le> period"
  shows "angularDifference_opt a0 a1 units = angularDifference_orig a0 a1 units"
proof -
  define x where "x = a0 - a1"
  have pos: "0 < period" using assms(1) by (rule periodDict_pos)
  have per: "(if units = ''radians'' then Inr (2 * pi)
              else if units = ''degrees'' then Inr 360 else Inl RuntimeError) = Inr period"
    using assms(1) by (auto simp: periodDict_def split: if_splits)
  have opt: "angularDifference_opt a0 a1 units = Inr (min \<bar>x\<bar> (period - \<bar>x\<bar>))"
    using assms(1) by (simp add: angularDifference_opt_def x_def abs_minus_commute Let_def)
  have orig: "angularDifference_orig a0 a1 units
      = Inr \<bar>np_mod (x + 0.5 * period) period - 0.5 * period\<bar>"
    unfolding angularDifference_orig_def per by (simp add: x_def)
  have bound: "- period \<le> x" "x \<le> period"
    using assms(2) by (simp_all add: x_def abs_le_iff)
  consider (mid) "- period / 2 \<le> x" "x < period / 2"
    | (high) "period / 2 \<le> x" | (low) "x < - period / 2"
    by linarith
  then have "\<bar>np_mod (x + 0.5 * period) period - 0.5 * period\<bar> = min \<bar>x\<bar> (period - \<bar>x\<bar>)"
  proof cases
    case mid
    have "\<lfloor>(x + 0.5 * period) / period\<rfloor> = 0"
      using mid pos by (simp add: floor_eq_iff field_simps)
    then show ?thesis using mid pos by (simp add: np_mod_def min_def abs_if)
  next
    case high
    have "\<lfloor>(x + 0.5 * period) / period\<rfloor> = 1"
      using high bound pos by (simp add: floor_eq_iff field_simps)
    then show ?thesis using high bound pos by (simp add: np_mod_def min_def abs_if)
  next
    case low
    have "\<lfloor>(x + 0.5 * period) / period\<rfloor> = - 1"
      using low bound pos by (simp add: floor_eq_iff field_simps)
    then show ?thesis using low bound pos by (simp add: np_mod_def min_def abs_if)
  qed
  with opt orig show ?thesis by simp
qed

subsection \<open>\<^verbatim>\<open>arccosSafe\<close>\<close>

text \<open>
  C6. \<^verbatim>\<open>arccosSafe\<close> raises when an entry exceeds \<open>1.00001\<close> in magnitude. Otherwise it
  returns one angle per entry: the arc cosine of \<open>1\<close> (which is \<open>0\<close>) for an entry above
  \<open>1\<close>, the arc cosine of \<open>-1\<close> (which is \<open>\<pi>\<close>) for an entry below \<open>-1\<close>, and the arc
  cosine of the entry itself for an entry of magnitude at most \<open>1\<close>.
\<close>

theorem arccosSafe_clamps_or_raises:
  "((\<exists>x \<in> set temp. 1.00001 < \<bar>x\<bar>) \<longrightarrow> arccosSafe temp = Inl RuntimeError)
   \<and> ((\<forall>x \<in> set temp. \<bar>x\<bar> \<le> 1.00001) \<longrightarrow>
        (\<exists>ang. arccosSafe temp = Inr ang \<and> length ang = length temp
           \<and> (\<forall>i < length temp.
                 (1 < temp ! i \<longrightarrow> ang ! i = arccos 1 \<and> ang ! i = 0)
               \<and> (temp ! i < - 1 \<longrightarrow> ang ! i = arccos (- 1) \<and> ang ! i = pi)
               \<and> (\<bar>temp ! i\<bar> \<le> 1 \<longrightarrow> ang ! i = arccos (temp ! i)))))"
proof (intro conjI impI)
  assume "\<exists>x \<in> set temp. 1.00001 < \<bar>x\<bar>"
  then show "arccosSafe temp = Inl RuntimeError" by (simp add: arccosSafe_def)
next
  assume ok: "\<forall>x \<in> set temp. \<bar>x\<bar> \<le> 1.00001"
  then have no: "\<not> (\<exists>x \<in> set temp. 1.00001 < \<bar>x\<bar>)" by (auto simp: not_less)
  let ?ang = "map (\<lambda>x. arccos (if x \<le> - 1 then - 1 else if x \<ge> 1 then 1 else x)) temp"
  have eq: "arccosSafe temp = Inr ?ang"
    using no by (simp add: arccosSafe_def Let_def map2_map_map[symmetric] zip_map1 zip_map2 o_def
        zip_same_conv_map cong: if_cong)
  show "\<exists>ang. arccosSafe temp = Inr ang \<and> length ang = length temp
           \<and> (\<forall>i < length temp.
                 (1 < temp ! i \<longrightarrow> ang ! i = arccos 1 \<and> ang ! i = 0)
               \<and> (temp ! i < - 1 \<longrightarrow> ang ! i = arccos (- 1) \<and> ang ! i = pi)
               \<and> (\<bar>temp ! i\<bar> \<le> 1 \<longrightarrow> ang ! i = arccos (temp ! i)))"
  proof (intro exI conjI allI impI)
    show "arccosSafe temp = Inr ?ang" by (rule eq)
  next
    fix i assume "i < length temp" and "\<bar>temp ! i\<bar> \<le> 1"
    moreover have "(if x \<le> - 1 then - 1 else if 1 \<le> x then 1 else x) = x"
      if "\<bar>x\<bar> \<le> 1" for x :: real
      using that by auto
    ultimately show "?ang ! i = arccos (temp ! i)" by simp
  qed simp_all
qed

theorem arccosSafe_witness:
  "arccosSafe [2] = Inl RuntimeError
   \<and> (\<exists>ang. arccosSafe [1.000005, - 1.000001, 0.5] = Inr ang \<and> length ang = 3
         \<and> ang ! 0 = 0 \<and> ang ! 1 = pi \<and> ang ! 2 = arccos 0.5)"
proof -
  have "arccosSafe [2] = Inl RuntimeError"
    using arccosSafe_clamps_or_raises [of "[2]"] by simp
  moreover have "\<forall>x \<in> set [1.000005, - 1.000001, 0.5 :: real]. \<bar>x\<bar> \<le> 1.00001"
    by simp
  with arccosSafe_clamps_or_raises [of "[1.000005, - 1.000001, 0.5]"]
  obtain ang where a: "arccosSafe [1.000005, - 1.000001, 0.5] = Inr ang"
    and l: "length ang = length [1.000005, - 1.000001, 0.5 :: real]"
    and e: "\<forall>i < length [1.000005, - 1.000001, 0.5 :: real].
                 (1 < [1.000005, - 1.000001, 0.5 :: real] ! i \<longrightarrow> ang ! i = arccos 1 \<and> ang ! i = 0)
               \<and> ([1.000005, - 1.000001, 0.5 :: real] ! i < - 1
                    \<longrightarrow> ang ! i = arccos (- 1) \<and> ang ! i = pi)
               \<and> (\<bar>[1.000005, - 1.000001, 0.5 :: real] ! i\<bar> \<le> 1
                    \<longrightarrow> ang ! i = arccos ([1.000005, - 1.000001, 0.5 :: real] ! i))"
    by blast
  from e [rule_format, of 0] e [rule_format, of 1] e [rule_format, of 2]
  have "ang ! 0 = 0" and "ang ! 1 = pi" and "ang ! 2 = arccos 0.5"
    by simp_all
  ultimately show ?thesis using a l by simp
qed

subsection \<open>Lists, reshapes and reductions\<close>

lemma fixQuat2_map: "fixQuat2 q = map fixQuat1 q"
  by (simp add: fixQuat2_def fixQuat1_def unitVector_def Let_def map2_map_map [symmetric]
      zip_map1 zip_map2 zip_same_conv_map o_def)

lemma nth_concat_uniform:
  "\<forall>xs \<in> set xss. length xs = m \<Longrightarrow> j < length xss \<Longrightarrow> k < m
     \<Longrightarrow> concat xss ! (j * m + k) = xss ! j ! k"
proof (induction xss arbitrary: j)
  case Nil
  then show ?case by simp
next
  case (Cons xs xss)
  show ?case
  proof (cases j)
    case 0
    with Cons.prems show ?thesis by (simp add: nth_append)
  next
    case (Suc j')
    with Cons.prems have "concat xss ! (j' * m + k) = xss ! j' ! k"
      by (intro Cons.IH) auto
    with Suc Cons.prems show ?thesis by (simp add: nth_append)
  qed
qed

lemma length_concat_uniform:
  "\<forall>xs \<in> set xss. length xs = m \<Longrightarrow> length (concat xss) = length xss * m"
  by (induction xss) auto

lemma concat_unflatten: "length xs = l * n \<Longrightarrow> concat (unflatten l n xs) = xs"
proof (induction l arbitrary: xs rule: nat.induct)
  case zero
  then show ?case by (simp add: unflatten_def)
next
  case (Suc l)
  have "length (take (l * n) xs) = l * n" using Suc.prems by simp
  then have "concat (unflatten l n (take (l * n) xs)) = take (l * n) xs" by (rule Suc.IH)
  moreover have "unflatten l n (take (l * n) xs) = unflatten l n xs"
    unfolding unflatten_def
  proof (rule map_cong[OF refl])
    fix a assume "a \<in> set [0..<l]"
    then have "a * n + n \<le> l * n"
      by (metis Suc_leI atLeastLessThan_iff mult_Suc mult_le_mono1 set_upt add.commute)
    then show "take n (drop (a * n) (take (l * n) xs)) = take n (drop (a * n) xs)"
      by (simp add: drop_take min_def)
  qed
  ultimately have "concat (unflatten l n xs) = take (l * n) xs" by simp
  then show ?case using Suc.prems by (simp add: unflatten_def)
qed

lemma unflatten_lengths:
  "length xs = l * n \<Longrightarrow> b \<in> set (unflatten l n xs) \<Longrightarrow> length b = n"
proof -
  assume len: "length xs = l * n" and "b \<in> set (unflatten l n xs)"
  then obtain a where a: "a < l" and b: "b = take n (drop (a * n) xs)"
    by (auto simp: unflatten_def)
  from a have "a * n + n \<le> l * n"
    by (metis Suc_leI mult_Suc mult_le_mono1 add.commute)
  with len b show ?thesis by simp
qed

lemma amax_ge: "x \<in> set xs \<Longrightarrow> x \<le> amax xs"
  by (induction xs rule: amax.induct) auto

lemma amax_in: "xs \<noteq> [] \<Longrightarrow> amax xs \<in> set xs"
  by (induction xs rule: amax.induct) (auto simp: max_def)

lemma first_index_nth: "v \<in> set xs \<Longrightarrow> first_index v xs < length xs \<and> xs ! first_index v xs = v"
  by (induction xs) auto

lemma argmax_props:
  assumes "xs \<noteq> []"
  shows "argmax xs < length xs" and "xs ! argmax xs = amax xs"
  using first_index_nth [OF amax_in [OF assms]] by (simp_all add: argmax_def)


subsection \<open>Fundamental region\<close>

lemma symmetry_operator_group:
  "symmetry_operator rv symm mult
     = (case symmetry_group rv symm of Inl e \<Rightarrow> Inl e | Inr g \<Rightarrow> quatProductMatrix g mult)"
  by (simp add: symmetry_operator_def symmetry_group_def split: symmetry.splits)

lemma dot_stack_right:
  "dot_stack (map (\<lambda>s. reshuffle (stack_right s)) g) cols
     = concat (map (\<lambda>v. map (\<lambda>s. hamilton v s) g) cols)"
  by (simp add: dot_stack_def matvec_right o_def)

lemma fixQuat2_dot_stack_right:
  "fixQuat2 (dot_stack (map (\<lambda>s. reshuffle (stack_right s)) g) cols)
     = concat (map (eqv_class g) cols)"
  by (simp add: dot_stack_right fixQuat2_map map_concat o_def eqv_class_def [abs_def])

lemma class_scalars:
  assumes "j < length cols"
  shows "map (\<lambda>k. c0 (concat (map (eqv_class g) cols) ! (j * length g + k))) [0..<length g]
           = map c0 (eqv_class g (cols ! j))"
proof (rule nth_equalityI)
  show "length (map (\<lambda>k. c0 (concat (map (eqv_class g) cols) ! (j * length g + k))) [0..<length g])
          = length (map c0 (eqv_class g (cols ! j)))"
    by (simp add: eqv_class_def)
next
  fix k assume "k < length (map (\<lambda>k. c0 (concat (map (eqv_class g) cols) ! (j * length g + k)))
                      [0..<length g])"
  then have k: "k < length g" by simp
  have "concat (map (eqv_class g) cols) ! (j * length g + k) = map (eqv_class g) cols ! j ! k"
    using assms k by (intro nth_concat_uniform) (auto simp: eqv_class_def)
  with assms k show "map (\<lambda>k. c0 (concat (map (eqv_class g) cols) ! (j * length g + k)))
        [0..<length g] ! k = map c0 (eqv_class g (cols ! j)) ! k"
    by (simp add: eqv_class_def)
qed

lemma toFundamentalRegion_columns:
  assumes g: "symmetry_group rv crysSym = Inr g" and ne: "g \<noteq> []"
    and nq: "columns q \<noteq> []"
  shows "\<exists>qr. length qr = length (columns q)
     \<and> (\<forall>j < length (columns q).
           qr ! j = eqv_class g (columns q ! j) ! argmax (map c0 (eqv_class g (columns q ! j))))
     \<and> toFundamentalRegion rv q crysSym None
         = Inr (case q of Arr2 c \<Rightarrow> Arr2 qr | Arr3 n3 bs \<Rightarrow> Arr3 n3 (unflatten (length bs) n3 qr))"
proof -
  define cols where "cols = columns q"
  define m where "m = length g"
  define qeqv where "qeqv = concat (map (eqv_class g) cols)"
  define q0 where "q0 = map (\<lambda>j. map (\<lambda>k. c0 (qeqv ! (j * m + k))) [0..<m]) [0..<length cols]"
  define qr where "qr = map (\<lambda>i. qeqv ! i)
      (map2 (+) (map argmax q0) (map (\<lambda>x. x * m) [0..<length cols]))"
  have op: "symmetry_operator rv crysSym ''right'' = Inr (map (\<lambda>s. reshuffle (stack_right s)) g)"
    by (simp add: symmetry_operator_group g quatProductMatrix_def)
  have mpos: "m \<noteq> 0" using ne by (simp add: m_def)
  have run: "toFundamentalRegion rv q crysSym None
         = Inr (case q of Arr2 c \<Rightarrow> Arr2 qr | Arr3 n3 bs \<Rightarrow> Arr3 n3 (unflatten (length bs) n3 qr))"
    unfolding toFundamentalRegion_def op qr_def q0_def qeqv_def cols_def m_def
    using ne nq by (cases q) (simp_all add: Let_def fixQuat2_dot_stack_right columns_def)
  have len: "length qr = length cols" by (simp add: qr_def q0_def)
  have nth: "qr ! j = eqv_class g (cols ! j) ! argmax (map c0 (eqv_class g (cols ! j)))"
    if j: "j < length cols" for j
  proof -
    have q0j: "q0 ! j = map c0 (eqv_class g (cols ! j))"
      using j class_scalars [OF j, of g] by (simp add: q0_def qeqv_def m_def)
    have "argmax (q0 ! j) < length (map c0 (eqv_class g (cols ! j)))"
      unfolding q0j using ne by (intro argmax_props) (simp add: eqv_class_def)
    then have k: "argmax (q0 ! j) < m" by (simp add: eqv_class_def m_def)
    have "qr ! j = qeqv ! (argmax (q0 ! j) + j * m)"
      using j by (simp add: qr_def q0_def)
    also have "\<dots> = qeqv ! (j * m + argmax (q0 ! j))" by (simp add: add.commute)
    also have "\<dots> = map (eqv_class g) cols ! j ! argmax (q0 ! j)"
      unfolding qeqv_def using j k by (intro nth_concat_uniform) (auto simp: eqv_class_def m_def)
    finally show ?thesis using j by (simp add: q0j)
  qed
  from len nth run show ?thesis unfolding cols_def by blast
qed


lemma columns_rebuilt:
  assumes "wf_qarray q" and "length qr = length (columns q)"
  shows "columns (case q of Arr2 c \<Rightarrow> Arr2 qr | Arr3 n3 bs \<Rightarrow> Arr3 n3 (unflatten (length bs) n3 qr)) = qr"
    and "shape (case q of Arr2 c \<Rightarrow> Arr2 qr | Arr3 n3 bs \<Rightarrow> Arr3 n3 (unflatten (length bs) n3 qr)) = shape q"
    and "wf_qarray (case q of Arr2 c \<Rightarrow> Arr2 qr | Arr3 n3 bs \<Rightarrow> Arr3 n3 (unflatten (length bs) n3 qr))"
proof -
  have len: "length qr = length bs * n3" if "q = Arr3 n3 bs" for n3 bs
    using assms that length_concat_uniform [of bs n3]
    by (simp add: wf_qarray_def columns_def list_all_iff)
  show "columns (case q of Arr2 c \<Rightarrow> Arr2 qr | Arr3 n3 bs \<Rightarrow> Arr3 n3 (unflatten (length bs) n3 qr)) = qr"
    using len by (cases q) (simp_all add: columns_def concat_unflatten)
  show "shape (case q of Arr2 c \<Rightarrow> Arr2 qr | Arr3 n3 bs \<Rightarrow> Arr3 n3 (unflatten (length bs) n3 qr)) = shape q"
    using assms by (cases q) (simp_all add: shape_def columns_def unflatten_def)
  show "wf_qarray (case q of Arr2 c \<Rightarrow> Arr2 qr | Arr3 n3 bs \<Rightarrow> Arr3 n3 (unflatten (length bs) n3 qr))"
    using len by (cases q) (auto simp: wf_qarray_def list_all_iff dest: unflatten_lengths)
qed

text \<open>
  Without a group operation, and for a batch without columns, the call raises.
\<close>

lemma toFundamentalRegion_raises:
  assumes g: "symmetry_group rv crysSym = Inr g"
  shows "g = [] \<Longrightarrow> toFundamentalRegion rv q crysSym None = Inl ValueError"
    and "g \<noteq> [] \<Longrightarrow> columns q = [] \<Longrightarrow> toFundamentalRegion rv q crysSym None = Inl IndexError"
proof -
  have op: "symmetry_operator rv crysSym ''right'' = Inr (map (\<lambda>s. reshuffle (stack_right s)) g)"
    by (simp add: symmetry_operator_group g quatProductMatrix_def)
  show "g = [] \<Longrightarrow> toFundamentalRegion rv q crysSym None = Inl ValueError"
    unfolding toFundamentalRegion_def op by (simp add: Let_def)
  show "g \<noteq> [] \<Longrightarrow> columns q = [] \<Longrightarrow> toFundamentalRegion rv q crysSym None = Inl IndexError"
    unfolding toFundamentalRegion_def op by (cases q) (simp_all add: Let_def columns_def)
qed

text \<open>
  C1. Without a sample symmetry, for a well-formed quaternion array (two- or
  three-dimensional) and a crystal symmetry, given as a tag or as a batch, that stands for
  the group \<open>g\<close>: whenever \<^verbatim>\<open>toFundamentalRegion\<close> returns, its result has the shape of
  the input and each of its columns is a member of the sign-fixed equivalence class of the
  input column at the same place whose scalar component is at least that of every member
  of the class; and it does return when the group and the batch are not empty.
\<close>

theorem toFundamentalRegion_maximal:
  assumes "wf_qarray q" and "symmetry_group from_rotvec crysSym = Inr g"
  shows "(g \<noteq> [] \<and> columns q \<noteq> []
            \<longrightarrow> (\<exists>qr. toFundamentalRegion from_rotvec q crysSym None = Inr qr))
     \<and> (\<forall>qr. toFundamentalRegion from_rotvec q crysSym None = Inr qr \<longrightarrow>
           shape qr = shape q \<and> wf_qarray qr \<and> length (columns qr) = length (columns q)
         \<and> (\<forall>j < length (columns q).
               columns qr ! j \<in> set (eqv_class g (columns q ! j))
             \<and> (\<forall>e \<in> set (eqv_class g (columns q ! j)). c0 e \<le> c0 (columns qr ! j))))"
proof (cases "g \<noteq> [] \<and> columns q \<noteq> []")
  case False
  then have "\<exists>e. toFundamentalRegion from_rotvec q crysSym None = Inl e"
    using toFundamentalRegion_raises [OF assms(2), of q] by blast
  with False show ?thesis by auto
next
  case True
  then have ne: "g \<noteq> []" and nq: "columns q \<noteq> []" by simp_all
  from toFundamentalRegion_columns [OF assms(2) ne nq]
  obtain out where len: "length out = length (columns q)"
    and nth: "\<forall>j < length (columns q).
           out ! j = eqv_class g (columns q ! j) ! argmax (map c0 (eqv_class g (columns q ! j)))"
    and run: "toFundamentalRegion from_rotvec q crysSym None
         = Inr (case q of Arr2 c \<Rightarrow> Arr2 out | Arr3 n3 bs \<Rightarrow> Arr3 n3 (unflatten (length bs) n3 out))"
    by blast
  let ?out = "case q of Arr2 c \<Rightarrow> Arr2 out | Arr3 n3 bs \<Rightarrow> Arr3 n3 (unflatten (length bs) n3 out)"
  note out = columns_rebuilt [OF assms(1) len]
  have best: "columns ?out ! j \<in> set (eqv_class g (columns q ! j))
         \<and> (\<forall>e \<in> set (eqv_class g (columns q ! j)). c0 e \<le> c0 (columns ?out ! j))"
    if j: "j < length (columns q)" for j
  proof -
    let ?cls = "eqv_class g (columns q ! j)"
    have nc: "map c0 ?cls \<noteq> []" using ne by (simp add: eqv_class_def)
    have k: "argmax (map c0 ?cls) < length ?cls"
      using argmax_props(1) [OF nc] by simp
    have mx: "c0 (?cls ! argmax (map c0 ?cls)) = amax (map c0 ?cls)"
      using argmax_props(2) [OF nc] k by simp
    have col: "columns ?out ! j = ?cls ! argmax (map c0 ?cls)"
      using nth j by (simp add: out(1))
    have "columns ?out ! j \<in> set ?cls" using k by (simp add: col)
    moreover have "c0 e \<le> c0 (columns ?out ! j)" if "e \<in> set ?cls" for e
      using that amax_ge [of "c0 e" "map c0 ?cls"] by (simp add: col mx)
    ultimately show ?thesis by blast
  qed
  have all: "shape ?out = shape q \<and> wf_qarray ?out
         \<and> length (columns ?out) = length (columns q)
         \<and> (\<forall>j < length (columns q).
               columns ?out ! j \<in> set (eqv_class g (columns q ! j))
             \<and> (\<forall>e \<in> set (eqv_class g (columns q ! j)). c0 e \<le> c0 (columns ?out ! j)))"
    using out(2,3) best by (simp add: out(1) len)
  have part: "shape qr = shape q \<and> wf_qarray qr
         \<and> length (columns qr) = length (columns q)
         \<and> (\<forall>j < length (columns q).
               columns qr ! j \<in> set (eqv_class g (columns q ! j))
             \<and> (\<forall>e \<in> set (eqv_class g (columns q ! j)). c0 e \<le> c0 (columns qr ! j)))"
    if "toFundamentalRegion from_rotvec q crysSym None = Inr qr" for qr
  proof -
    from that run have "qr = ?out" by simp
    with all show ?thesis by simp
  qed
  from run have "\<exists>qr. toFundamentalRegion from_rotvec q crysSym None = Inr qr" by blast
  with part show ?thesis by blast
qed

theorem toFundamentalRegion_maximal_witness:
  "wf_qarray (Arr2 [Quat 0 1 0 0])
   \<and> symmetry_group (\<lambda>v. (0, 0, 0, 1)) (Group [Quat 1 0 0 0, Quat 0 1 0 0])
       = Inr [Quat 1 0 0 0, Quat 0 1 0 0]
   \<and> columns (Arr2 [Quat 0 1 0 0]) = [Quat 0 1 0 0]
   \<and> eqv_class [Quat 1 0 0 0, Quat 0 1 0 0] (Quat 0 1 0 0) = [Quat 0 1 0 0, Quat 1 0 0 0]
   \<and> (\<exists>qr. toFundamentalRegion (\<lambda>v. (0, 0, 0, 1)) (Arr2 [Quat 0 1 0 0])
              (Group [Quat 1 0 0 0, Quat 0 1 0 0]) None = Inr qr
         \<and> shape qr = [4, 1] \<and> columns qr ! 0 = Quat 1 0 0 0)"
proof -
  let ?g = "[Quat 1 0 0 0, Quat 0 1 0 0]"
  have wf: "wf_qarray (Arr2 [Quat 0 1 0 0])" by (simp add: wf_qarray_def)
  have grp: "symmetry_group (\<lambda>v. (0, 0, 0, 1)) (Group ?g) = Inr ?g"
    by (simp add: symmetry_group_def)
  have cls: "eqv_class ?g (Quat 0 1 0 0) = [Quat 0 1 0 0, Quat 1 0 0 0]"
    by (simp add: eqv_class_def fixQuat1_def unitVector1_def columnNorm_def hamilton_def
        scaleq_def)
  have cols: "columns (Arr2 [Quat 0 1 0 0]) = [Quat 0 1 0 0]" by (simp add: columns_def)
  note inst = toFundamentalRegion_maximal [OF wf grp]
  from inst [THEN conjunct1] obtain qr
    where run: "toFundamentalRegion (\<lambda>v. (0, 0, 0, 1)) (Arr2 [Quat 0 1 0 0])
              (Group ?g) None = Inr qr"
    by (auto simp: cols)
  from inst [THEN conjunct2, rule_format, OF run]
  have sh: "shape qr = shape (Arr2 [Quat 0 1 0 0])"
    and best: "\<forall>j < length (columns (Arr2 [Quat 0 1 0 0])).
           columns qr ! j \<in> set (eqv_class ?g (columns (Arr2 [Quat 0 1 0 0]) ! j))
         \<and> (\<forall>e \<in> set (eqv_class ?g (columns (Arr2 [Quat 0 1 0 0]) ! j)).
               c0 e \<le> c0 (columns qr ! j))"
    by blast+
  from best [rule_format, of 0]
  have "columns qr ! 0 \<in> {Quat 0 1 0 0, Quat 1 0 0 0}" and "1 \<le> c0 (columns qr ! 0)"
    by (simp_all add: cols cls)
  then have "columns qr ! 0 = Quat 1 0 0 0" by auto
  with wf grp cls cols run sh show ?thesis by (simp add: shape_def)
qed

text \<open>A tag is either not recognised or stands for a non-empty group.\<close>

lemma angleAxis_of_tag_nonempty: "angleAxis_of_tag t = Some aa \<Longrightarrow> aa \<noteq> []"
  by (auto simp: angleAxis_of_tag_def Let_def split: if_splits)

lemma quatOfAngleAxis_table:
  "\<exists>g. quatOfAngleAxis from_rotvec (map fst aa) (map snd aa) = Inr g \<and> length g = length aa"
  by (cases "length aa = 1")
     (simp_all add: quatOfAngleAxis_def Let_def scipy_rotation_to_quat_def unitVector3_def)

lemma tag_group:
  "symmetry_group from_rotvec (Tag t) = Inl RuntimeError
   \<or> (\<exists>g. symmetry_group from_rotvec (Tag t) = Inr g \<and> g \<noteq> [])"
proof (cases "angleAxis_of_tag t")
  case None
  then show ?thesis by (simp add: symmetry_group_def quatOfLaueGroup_def)
next
  case (Some aa)
  from quatOfAngleAxis_table [of from_rotvec aa]
  obtain g where "quatOfAngleAxis from_rotvec (map fst aa) (map snd aa) = Inr g"
    and "length g = length aa" by blast
  moreover have "aa \<noteq> []" using Some by (rule angleAxis_of_tag_nonempty)
  ultimately show ?thesis using Some
    by (auto simp: symmetry_group_def quatOfLaueGroup_def Let_def)
qed

text \<open>
  C7. With a sample symmetry \<^verbatim>\<open>toFundamentalRegion\<close> never returns a result; when both
  symmetry arguments stand for a group (a recognised tag or a batch) it raises
  \<^verbatim>\<open>NotImplementedError\<close>.
\<close>

theorem toFundamentalRegion_sampSym_not_implemented:
  "(\<forall>qr. toFundamentalRegion from_rotvec q crysSym (Some sampSym) \<noteq> Inr qr)
   \<and> ((\<exists>gc. symmetry_group from_rotvec crysSym = Inr gc)
        \<and> (\<exists>gs. symmetry_group from_rotvec sampSym = Inr gs)
      \<longrightarrow> toFundamentalRegion from_rotvec q crysSym (Some sampSym) = Inl NotImplementedError)"
  by (auto simp: toFundamentalRegion_def symmetry_operator_group quatProductMatrix_def Let_def
      split: sum.splits)

theorem toFundamentalRegion_sampSym_witness:
  "symmetry_group (\<lambda>v. (0, 0, 0, 1)) (Tag ''Ci'') = Inr [Quat 1 0 0 0]
   \<and> symmetry_group (\<lambda>v. (0, 0, 0, 1)) (Group [Quat 1 0 0 0, Quat 0 0 0 1])
       = Inr [Quat 1 0 0 0, Quat 0 0 0 1]
   \<and> toFundamentalRegion (\<lambda>v. (0, 0, 0, 1)) (Arr2 [Quat 0 1 0 0]) (Tag ''Ci'')
       (Some (Group [Quat 1 0 0 0, Quat 0 0 0 1])) = Inl NotImplementedError"
proof -
  have c: "symmetry_group (\<lambda>v. (0, 0, 0, 1)) (Tag ''Ci'') = Inr [Quat 1 0 0 0]"
    by (simp add: symmetry_group_def quatOfLaueGroup_def angleAxis_of_tag_def lower_def
        lower_char_def quatOfAngleAxis_def unitVector3_def columnNorm3_def div3_def scale3_def
        scipy_rotation_to_quat_def roll1_def scaleq_def Let_def)
  have s: "symmetry_group (\<lambda>v. (0, 0, 0, 1)) (Group [Quat 1 0 0 0, Quat 0 0 0 1])
       = Inr [Quat 1 0 0 0, Quat 0 0 0 1]"
    by (simp add: symmetry_group_def)
  from toFundamentalRegion_sampSym_not_implemented
    [of "\<lambda>v. (0, 0, 0, 1)" "Arr2 [Quat 0 1 0 0]" "Tag ''Ci''" "Group [Quat 1 0 0 0, Quat 0 0 0 1]"]
    c s
  show ?thesis by simp
qed

subsection \<open>\<^verbatim>\<open>fixQuat\<close>\<close>

lemma columnNorm_nonneg: "0 \<le> columnNorm v"
  by (simp add: columnNorm_def)

lemma columnNorm_eq_0: "columnNorm v = 0 \<longleftrightarrow> v = Quat 0 0 0 0"
proof
  assume "columnNorm v = 0"
  then have "(c0 v)\<^sup>2 + (c1 v)\<^sup>2 + (c2 v)\<^sup>2 + (c3 v)\<^sup>2 = 0"
    by (simp add: columnNorm_def)
  moreover have "0 \<le> (c0 v)\<^sup>2" "0 \<le> (c1 v)\<^sup>2" "0 \<le> (c2 v)\<^sup>2" "0 \<le> (c3 v)\<^sup>2"
    by simp_all
  ultimately have "(c0 v)\<^sup>2 = 0 \<and> (c1 v)\<^sup>2 = 0 \<and> (c2 v)\<^sup>2 = 0 \<and> (c3 v)\<^sup>2 = 0"
    by linarith
  then show "v = Quat 0 0 0 0" by (cases v) simp
next
  assume "v = Quat 0 0 0 0"
  then show "columnNorm v = 0" by (simp add: columnNorm_def)
qed

lemma columnNorm_scaleq: "columnNorm (scaleq a v) = \<bar>a\<bar> * columnNorm v"
proof -
  have "(a * c0 v)\<^sup>2 + (a * c1 v)\<^sup>2 + (a * c2 v)\<^sup>2 + (a * c3 v)\<^sup>2
      = a\<^sup>2 * ((c0 v)\<^sup>2 + (c1 v)\<^sup>2 + (c2 v)\<^sup>2 + (c3 v)\<^sup>2)"
    by (simp add: power_mult_distrib distrib_left)
  then show ?thesis
    by (simp add: columnNorm_def scaleq_def real_sqrt_mult)
qed

lemma columnNorm_unitVector1:
  "v \<noteq> Quat 0 0 0 0 \<Longrightarrow> columnNorm (unitVector1 v) = 1"
  using columnNorm_eq_0 [of v] columnNorm_nonneg [of v]
  by (simp add: unitVector1_def columnNorm_scaleq)

lemma unitVector1_unit: "columnNorm v = 1 \<Longrightarrow> unitVector1 v = v"
  by (cases v) (simp add: unitVector1_def scaleq_def)

lemma abs_c0_le_columnNorm: "\<bar>c0 v\<bar> \<le> columnNorm v"
proof -
  have "sqrt ((c0 v)\<^sup>2) \<le> columnNorm v"
    unfolding columnNorm_def by (rule real_sqrt_le_mono) simp
  then show ?thesis by simp
qed

lemma fixQuat1_nonneg: "0 \<le> c0 (fixQuat1 v)"
  by (simp add: fixQuat1_def Let_def scaleq_def)

lemma columnNorm_fixQuat1: "v \<noteq> Quat 0 0 0 0 \<Longrightarrow> columnNorm (fixQuat1 v) = 1"
  by (simp add: fixQuat1_def Let_def columnNorm_scaleq columnNorm_unitVector1)

lemma fixQuat1_fixed: "columnNorm v = 1 \<Longrightarrow> 0 \<le> c0 v \<Longrightarrow> fixQuat1 v = v"
  by (simp add: fixQuat1_def Let_def unitVector1_unit)

lemma fixQuat1_zero: "fixQuat1 (Quat 0 0 0 0) = Quat 0 0 0 0"
  by (simp add: fixQuat1_def Let_def unitVector1_def scaleq_def)

lemma fixQuat1_idem: "fixQuat1 (fixQuat1 v) = fixQuat1 v"
proof (cases "v = Quat 0 0 0 0")
  case True
  then show ?thesis by (simp add: fixQuat1_zero)
next
  case False
  then show ?thesis by (intro fixQuat1_fixed columnNorm_fixQuat1 fixQuat1_nonneg)
qed

lemma c0_fixQuat1_le_1: "c0 (fixQuat1 v) \<le> 1"
proof (cases "v = Quat 0 0 0 0")
  case True
  then show ?thesis by (simp add: fixQuat1_zero)
next
  case False
  then have "columnNorm (fixQuat1 v) = 1" by (rule columnNorm_fixQuat1)
  with abs_c0_le_columnNorm [of "fixQuat1 v"] show ?thesis by simp
qed

lemma columns_fixQuat:
  assumes "wf_qarray q"
  shows "columns (fixQuat q) = map fixQuat1 (columns q)"
proof (cases q)
  case (Arr2 c)
  then show ?thesis by (simp add: columns_def fixQuat2_map)
next
  case (Arr3 n bs)
  with assms have "length (concat bs) = length bs * n"
    by (intro length_concat_uniform) (simp add: wf_qarray_def list_all_iff)
  with Arr3 show ?thesis by (simp add: columns_def fixQuat2_map concat_unflatten)
qed

lemma fixQuat_rebuild:
  "fixQuat q = (case q of Arr2 c \<Rightarrow> Arr2 (map fixQuat1 (columns q))
                | Arr3 n3 bs \<Rightarrow> Arr3 n3 (unflatten (length bs) n3 (map fixQuat1 (columns q))))"
  by (cases q) (simp_all add: columns_def fixQuat2_map)

text \<open>
  C4. For a well-formed quaternion array (two- or three-dimensional) none of whose columns
  is zero, \<^verbatim>\<open>fixQuat\<close> keeps the shape, every column of its result has unit norm and a
  nonnegative scalar component, and applying \<^verbatim>\<open>fixQuat\<close> again changes nothing.
\<close>

theorem fixQuat_unit_nonneg_idempotent:
  assumes "wf_qarray q" and "\<forall>v \<in> set (columns q). v \<noteq> Quat 0 0 0 0"
  shows "shape (fixQuat q) = shape q
    \<and> (\<forall>v \<in> set (columns (fixQuat q)). columnNorm v = 1 \<and> 0 \<le> c0 v)
    \<and> fixQuat (fixQuat q) = fixQuat q"
proof (intro conjI)
  have len: "length (map fixQuat1 (columns q)) = length (columns q)" by simp
  show "shape (fixQuat q) = shape q"
    unfolding fixQuat_rebuild [of q] by (rule columns_rebuilt(2) [OF assms(1) len])
  show "\<forall>v \<in> set (columns (fixQuat q)). columnNorm v = 1 \<and> 0 \<le> c0 v"
    using assms(2) by (auto simp: columns_fixQuat [OF assms(1)] columnNorm_fixQuat1 fixQuat1_nonneg)
  show "fixQuat (fixQuat q) = fixQuat q"
  proof (cases q)
    case (Arr2 c)
    then show ?thesis by (simp add: fixQuat2_map fixQuat1_idem)
  next
    case (Arr3 n bs)
    define X where "X = map fixQuat1 (concat bs)"
    have "length (concat bs) = length bs * n"
      using assms(1) Arr3 by (intro length_concat_uniform) (simp add: wf_qarray_def list_all_iff)
    then have "concat (unflatten (length bs) n X) = X"
      by (intro concat_unflatten) (simp add: X_def)
    moreover have "map fixQuat1 X = X" by (simp add: X_def fixQuat1_idem)
    moreover have "length (unflatten (length bs) n X) = length bs" by (simp add: unflatten_def)
    ultimately show ?thesis using Arr3 by (simp add: fixQuat2_map X_def [symmetric])
  qed
qed


theorem fixQuat_witness:
  "wf_qarray (Arr2 [Quat (- 3) 0 4 0]) \<and> Quat (- 3) 0 4 0 \<noteq> Quat 0 0 0 0
   \<and> fixQuat (Arr2 [Quat (- 3) 0 4 0]) = Arr2 [Quat (3/5) 0 (- (4/5)) 0]
   \<and> columnNorm (Quat (3/5) 0 (- (4/5)) 0) = 1
   \<and> fixQuat (Arr2 [Quat (3/5) 0 (- (4/5)) 0]) = Arr2 [Quat (3/5) 0 (- (4/5)) 0]"
proof -
  have wf: "wf_qarray (Arr2 [Quat (- 3) 0 4 0])" by (simp add: wf_qarray_def)
  have nz: "\<forall>v \<in> set (columns (Arr2 [Quat (- 3) 0 4 0])). v \<noteq> Quat 0 0 0 0"
    by (simp add: columns_def)
  have "sqrt 25 = 5" by (rule real_sqrt_unique) simp_all
  then have val: "fixQuat (Arr2 [Quat (- 3) 0 4 0]) = Arr2 [Quat (3/5) 0 (- (4/5)) 0]"
    by (simp add: fixQuat2_def unitVector_def unitVector1_def columnNorm_def scaleq_def)
  from fixQuat_unit_nonneg_idempotent [OF wf nz] val
  show ?thesis using wf by (simp add: columns_def)
qed

subsection \<open>\<^verbatim>\<open>misorientation\<close>\<close>

lemma amax_eq: "x \<in> set xs \<Longrightarrow> \<forall>y \<in> set xs. y \<le> x \<Longrightarrow> amax xs = x"
  using amax_in [of xs] amax_ge [of x xs] by (cases "xs = []") (auto intro: antisym)

lemma map_nth_upt: "map (\<lambda>i. f (xs ! i)) [0..<length xs] = map f xs"
  by (rule nth_equalityI) simp_all

lemma hamilton_ident_left: "hamilton (Quat 1 0 0 0) v = v"
  by (cases v) (simp add: hamilton_def)

lemma hamilton_ident_right: "hamilton v (Quat 1 0 0 0) = v"
  by (cases v) (simp add: hamilton_def)

lemma fixQuat1_ident: "fixQuat1 (Quat 1 0 0 0) = Quat 1 0 0 0"
  by (simp add: fixQuat1_fixed columnNorm_def)

lemma fixQuat1_minus_ident: "fixQuat1 (Quat (- 1) 0 0 0) = Quat 1 0 0 0"
  by (simp add: fixQuat1_def Let_def unitVector1_def columnNorm_def scaleq_def)

lemma self_misorientation:
  assumes "columnNorm q = 1"
  shows "fixQuat1 (hamilton q (fixQuat1 (Quat (- c0 q) (c1 q) (c2 q) (c3 q)))) = Quat 1 0 0 0"
proof -
  from assms have sq: "(c0 q)\<^sup>2 + (c1 q)\<^sup>2 + (c2 q)\<^sup>2 + (c3 q)\<^sup>2 = 1"
    by (simp add: columnNorm_def)
  then have sq': "c0 q * c0 q + c1 q * c1 q + c2 q * c2 q + c3 q * c3 q = 1"
    by (simp add: power2_eq_square)
  have n: "columnNorm (Quat (- c0 q) (c1 q) (c2 q) (c3 q)) = 1"
    using sq by (simp add: columnNorm_def)
  show ?thesis
  proof (cases "0 < c0 q")
    case True
    then have "fixQuat1 (Quat (- c0 q) (c1 q) (c2 q) (c3 q)) = Quat (c0 q) (- c1 q) (- c2 q) (- c3 q)"
      by (simp add: fixQuat1_def Let_def unitVector1_unit [OF n] scaleq_def)
    moreover have "hamilton q (Quat (c0 q) (- c1 q) (- c2 q) (- c3 q)) = Quat 1 0 0 0"
      using sq' by (simp add: hamilton_def algebra_simps)
    ultimately show ?thesis by (simp add: fixQuat1_ident)
  next
    case False
    then have "fixQuat1 (Quat (- c0 q) (c1 q) (c2 q) (c3 q)) = Quat (- c0 q) (c1 q) (c2 q) (c3 q)"
      by (simp add: fixQuat1_def Let_def unitVector1_unit [OF n] scaleq_def)
    moreover have "hamilton q (Quat (- c0 q) (c1 q) (c2 q) (c3 q)) = Quat (- 1) 0 0 0"
      using sq' by (simp add: hamilton_def algebra_simps)
    ultimately show ?thesis by (simp add: fixQuat1_minus_ident)
  qed
qed

text \<open>
  C2. For a unit quaternion \<open>q\<close>, as a batch of one column, and a symmetry batch that
  contains the identity quaternion, \<^verbatim>\<open>misorientation(q, q, (qsym,))\<close> returns the angle
  \<open>0\<close> for its single target.
\<close>

theorem misorientation_self_zero:
  assumes "columnNorm q = 1" and "Quat 1 0 0 0 \<in> set qsym"
  shows "\<exists>mis. misorientation [q] [q] [[qsym]] = Inr ([0], mis)"
proof -
  define qi where "qi = fixQuat1 (Quat (- c0 q) (c1 q) (c2 q) (c3 q))"
  define eqv where "eqv = map (\<lambda>s. fixQuat1 (hamilton (hamilton q s) qi)) qsym"
  have m: "length qsym \<noteq> 0" using assms(2) by auto
  have inv: "invertQuat [q] = [qi]"
    by (simp add: invertQuat_def fixQuat2_map Let_def qi_def)
  have cls: "fixQuat2 (map (matvec (reshuffle (stack_right qi)))
                (dot_stack [reshuffle (stack_left (Quat 1 0 0 0))]
                  (dot_stack (map (\<lambda>s. reshuffle (stack_right s)) qsym) [q]))) = eqv"
    by (simp add: dot_stack_def matvec_right matvec_left hamilton_ident_left fixQuat2_map
        eqv_def o_def)
  have scl: "map (\<lambda>r. c0 (eqv ! r)) [0..<length qsym] = map c0 eqv"
    using map_nth_upt [of c0 eqv] by (simp add: eqv_def)
  have "Quat 1 0 0 0 \<in> set eqv"
  proof -
    have "fixQuat1 (hamilton (hamilton q (Quat 1 0 0 0)) qi) = Quat 1 0 0 0"
      using self_misorientation [OF assms(1)] by (simp add: hamilton_ident_right qi_def)
    with assms(2) show ?thesis unfolding eqv_def by force
  qed
  then have "1 \<in> set (map c0 eqv)" by force
  moreover have "\<forall>y \<in> set (map c0 eqv). y \<le> 1"
    by (auto simp: eqv_def c0_fixQuat1_le_1)
  ultimately have mx: "amax (map c0 eqv) = 1" by (rule amax_eq)
  have ac: "arccosSafe [1] = Inr [0]"
    by (simp add: arccosSafe_def)
  show ?thesis
    unfolding misorientation_def
    using m by (simp add: Let_def inv quatProductMatrix_def cls scl mx ac)
qed


theorem misorientation_self_zero_witness:
  "columnNorm (Quat (3/5) (4/5) 0 0) = 1
   \<and> Quat 1 0 0 0 \<in> set [Quat 0 1 0 0, Quat 1 0 0 0]
   \<and> (\<exists>mis. misorientation [Quat (3/5) (4/5) 0 0] [Quat (3/5) (4/5) 0 0]
          [[[Quat 0 1 0 0, Quat 1 0 0 0]]] = Inr ([0], mis))"
proof -
  have n: "columnNorm (Quat (3/5) (4/5) 0 0) = 1"
    by (simp add: columnNorm_def power_divide)
  have i: "Quat 1 0 0 0 \<in> set [Quat 0 1 0 0, Quat 1 0 0 0]" by simp
  from misorientation_self_zero [OF n i] n i show ?thesis by blast
qed

subsection \<open>The rotation axes of \<^verbatim>\<open>discreteFiber\<close>\<close>

text \<open>
  The three cases of the axis computation, when \<^verbatim>\<open>nullSpace\<close> has a column to give: no
  sum \<open>s + c\<close> below the tolerance, all of them, and some but not all. In the last the
  source indexes with \<^verbatim>\<open>not okay\<close>, which asks an array of two or more booleans for its
  truth value.
\<close>

lemma py_not_many: "2 \<le> length a \<Longrightarrow> py_not a = Inl ValueError"
  by (cases a; cases "tl a") (auto simp: py_not_def)

lemma discreteFiber_ax_cases:
  fixes ztol :: real and nullSpace :: "vec3 \<Rightarrow> vec3 list"
  defines "degenerate c v \<equiv> \<not> ztol < columnNorm3 (add3 v c)"
  assumes ns: "nullSpace c \<noteq> []"
  shows "discreteFiber_ax ztol nullSpace c s =
    (if \<forall>v \<in> set s. \<not> degenerate c v
       then Inr (map (\<lambda>v. div3 (add3 v c) (columnNorm3 (add3 v c))) s)
     else if \<forall>v \<in> set s. degenerate c v
       then Inr (replicate (length s) (hd (nullSpace c)))
     else Inl ValueError)"
proof -
  define okay where "okay = map (\<lambda>v. ztol < columnNorm3 (add3 v c)) s"
  define nokay where "nokay = length (filter (\<lambda>b. b) okay)"
  have ax: "map2 add3 s (replicate (length s) c) = map (\<lambda>v. add3 v c) s"
    by (rule nth_equalityI) simp_all
  have all: "nokay = length s \<longleftrightarrow> (\<forall>v \<in> set s. \<not> degenerate c v)"
    unfolding nokay_def okay_def degenerate_def
    by (simp add: filter_map o_def length_filter_conv_card
        flip: length_filter_conv_card) (metis (mono_tags, lifting) filter_True filter_id_conv
        length_filter_less less_irrefl_nat)
  have none: "nokay = 0 \<longleftrightarrow> (\<forall>v \<in> set s. degenerate c v)"
    unfolding nokay_def okay_def degenerate_def
    by (auto simp: filter_map o_def filter_empty_conv)
  have two: "2 \<le> length okay" if "nokay \<noteq> length s" "nokay \<noteq> 0"
  proof -
    have "nokay \<le> length okay" unfolding nokay_def by (rule length_filter_le)
    with that show ?thesis by (simp add: okay_def)
  qed
  obtain hperp rest where h: "nullSpace c = hperp # rest" using ns by (cases "nullSpace c") auto
  show ?thesis
    unfolding discreteFiber_ax_def Let_def ax
    using all none two
    by (simp add: o_def okay_def [symmetric] nokay_def [symmetric] h py_not_many
        map2_map_map [symmetric] zip_map1 zip_map2 zip_same_conv_map)
qed

text \<open>
  C8. \<^verbatim>\<open>discreteFiber\<close> does not return a fiber in the mixed case: for the crystal direction
  \<open>(0, 0, 1)\<close> and the two sample directions \<open>(0, 0, 1)\<close> and \<open>(0, 0, -1)\<close> the sums have
  norms \<open>2\<close> and \<open>0\<close>, one above and one below the tolerance \<open>2\<^sup>-\<^sup>2\<^sup>6\<close>, and the axis
  computation raises \<^verbatim>\<open>ValueError\<close> instead of substituting the null-space vector.
\<close>

theorem discreteFiber_mixed_raises:
  "discreteFiber_ax (1 / 67108864) (\<lambda>c. [Vec3 1 0 0, Vec3 0 1 0]) (Vec3 0 0 1)
     [Vec3 0 0 1, Vec3 0 0 (- 1)] = Inl ValueError"
  by (simp add: discreteFiber_ax_def add3_def columnNorm3_def py_not_def Let_def)

subsection \<open>\<^verbatim>\<open>quatOfAngleAxis\<close> at a rotation by \<open>\<pi>\<close>\<close>

text \<open>
  \<^verbatim>\<open>_scipy_rotation_to_quat\<close> multiplies every column by the sign of its scalar component.
  For a scalar component that is exactly \<open>0\<close>, as that of a rotation by \<open>\<pi>\<close> in exact
  arithmetic, numpy's sign is \<open>0\<close> and the column becomes the zero column; in double
  precision the cosine of half of the rounded \<open>\<pi>\<close> is a small positive number.
\<close>

lemma scipy_rotation_to_quat_zero_scalar:
  "scipy_rotation_to_quat [(0, 0, 1, 0)] = [Quat 0 0 0 0]"
  by (simp add: scipy_rotation_to_quat_def roll1_def scaleq_def)





end
